theory Spec2Isabelle
  imports Complex_Main "HOL-Library.Log_Nat"
begin

section \<open>Numeric types of the C++ sources\<close>

text \<open>
  The sources compute with \<^verbatim>\<open>int\<close> and \<^verbatim>\<open>double\<close>. An \<^verbatim>\<open>int\<close> is modelled by
  \<^typ>\<open>int\<close> within the bounds \<open>INT_MIN\<close> and \<open>INT_MAX\<close> of a 32-bit \<^verbatim>\<open>int\<close>. A
  \<^verbatim>\<open>double\<close> is modelled by \<^typ>\<open>real\<close>: the conversion of an \<^verbatim>\<open>int\<close> to
  \<^verbatim>\<open>double\<close> is exact, and the rounding of the library functions \<^verbatim>\<open>log2\<close> and
  \<^verbatim>\<open>pow\<close> is not modelled.
\<close>

definition INT_MIN :: int where
  "INT_MIN = - (2 ^ 31)"

definition INT_MAX :: int where
  "INT_MAX = 2 ^ 31 - 1"


text \<open>
  Conversion of a \<^verbatim>\<open>double\<close> to \<^verbatim>\<open>int\<close>: the fractional part is discarded
  (truncation towards zero); the behaviour is undefined (\<open>None\<close>) when the truncated
  value is not an \<^verbatim>\<open>int\<close>.
\<close>

definition int_of_double :: "real \<Rightarrow> int option" where
  "int_of_double x =
     (if real_of_int INT_MIN - 1 < x \<and> x < real_of_int INT_MAX + 1
      then Some (if 0 \<le> x then \<lfloor>x\<rfloor> else \<lceil>x\<rceil>)
      else None)"

text \<open>
  \<^verbatim>\<open>log2\<close> of \<^verbatim>\<open><math.h>\<close>: for an argument that is not positive the result is
  minus infinity or not a number, which is no real (\<open>None\<close>).
\<close>

definition log2 :: "real \<Rightarrow> real option" where
  "log2 x = (if 0 < x then Some (log 2 x) else None)"

text \<open>\<^verbatim>\<open>pow\<close> of \<^verbatim>\<open><math.h>\<close>, used by the sources with the base 2 only.\<close>

definition pow :: "real \<Rightarrow> real \<Rightarrow> real" where
  "pow x y = x powr y"

section \<open>Process topology\<close>

text \<open>
  \<^verbatim>\<open>inline int compute_max_depth(int n_processes) {
    return log2((double)n_processes); }\<close>
\<close>

definition compute_max_depth :: "int \<Rightarrow> int option" where
  "compute_max_depth n_processes =
     (case log2 (real_of_int n_processes) of
        None \<Rightarrow> None
      | Some l \<Rightarrow> int_of_double l)"

text \<open>
  \<^verbatim>\<open>inline int compute_n_surplus_processes(int n_processes, int max_depth) {
    return n_processes - (int)pow(2.0, (double)max_depth); }\<close>
\<close>

definition compute_n_surplus_processes :: "int \<Rightarrow> int \<Rightarrow> int option" where
  "compute_n_surplus_processes n_processes max_depth =
     (case int_of_double (pow 2 (real_of_int max_depth)) of
        None \<Rightarrow> None
      | Some p \<Rightarrow> Some (n_processes - p))"


section \<open>The builder's terminal conversion\<close>

text \<open>
  The members of \<^verbatim>\<open>KDTreeGreenhouse\<close> that \<^verbatim>\<open>finalize\<close> touches. The class is
  declared in a header that is not among the sources at hand, so the record is used
  through its extensible scheme: whatever else the class holds is the \<open>more\<close> part.
  The coordinate type \<^verbatim>\<open>data_type\<close> is a type parameter.
\<close>

record 'd KDTreeGreenhouse =
  serial_tree :: "'d list"
  serial_tree_size :: int
  n_components :: int
  grown_kdtree_size :: int

text \<open>
  \<^verbatim>\<open>data_type *KDTreeGreenhouse::finalize() {
    grown_kdtree_size = serial_tree_size;
    return unpack_optional_array(serial_tree, serial_tree_size, n_components,
                                 EMPTY_PLACEHOLDER); }\<close>

  \<^verbatim>\<open>unpack_optional_array\<close> and \<^verbatim>\<open>EMPTY_PLACEHOLDER\<close> are declared outside the
  sources at hand and are the first two arguments of the model; the helper is taken
  as a function of the four values it is handed. The model returns the value handed
  back to the caller together with the object after the call.
\<close>

definition finalize ::
  "('d list \<Rightarrow> int \<Rightarrow> int \<Rightarrow> 'd \<Rightarrow> 'r) \<Rightarrow> 'd
     \<Rightarrow> ('d, 'm) KDTreeGreenhouse_scheme \<Rightarrow> 'r \<times> ('d, 'm) KDTreeGreenhouse_scheme" where
  "finalize unpack_optional_array EMPTY_PLACEHOLDER g =
     (let g' = g\<lparr>grown_kdtree_size := serial_tree_size g\<rparr>
      in (unpack_optional_array (serial_tree g') (serial_tree_size g') (n_components g')
            EMPTY_PLACEHOLDER, g'))"

section \<open>The driver\<close>

text \<open>
  \<^verbatim>\<open>main\<close> up to its call of the build entry point \<^verbatim>\<open>generate_kd_tree(dt, size, DIMS)\<close>.
  The rank comes from \<^verbatim>\<open>MPI_Comm_rank\<close> and is the argument of the model; the result is
  the call the worker makes, or the failure that stops it before. The array \<^verbatim>\<open>dt\<close>
  is a list of cells, \<open>None\<close> for a cell that was never written; the null pointer is
  \<open>None\<close> for the whole array. The values stored are \<^verbatim>\<open>int\<close>s.
\<close>

datatype main_error = Out_of_bounds_write

datatype builder_call =
  Generate_kd_tree (call_data: "int option list option") (call_size: int) (call_dims: int)

text \<open>One assignment \<^verbatim>\<open>dt[k] = v\<close>.\<close>

definition store :: "int option list \<Rightarrow> int \<Rightarrow> int \<Rightarrow> main_error + int option list" where
  "store dt k v =
     (if 0 \<le> k \<and> k < int (length dt) then Inr (dt[nat k := Some v])
      else Inl Out_of_bounds_write)"

text \<open>
  \<^verbatim>\<open>for (int i = 0; i < SIZE; i++) { dt[i * 2] = 9 - i; dt[i * 2 + 1] = 1 + i; }\<close>
  over the values that \<^verbatim>\<open>i\<close> takes.
\<close>

fun fill :: "int list \<Rightarrow> int option list \<Rightarrow> main_error + int option list" where
  "fill [] dt = Inr dt"
| "fill (i # is) dt =
     (case store dt (i * 2) (9 - i) of
        Inl e \<Rightarrow> Inl e
      | Inr dt1 \<Rightarrow>
          (case store dt1 (i * 2 + 1) (1 + i) of
             Inl e \<Rightarrow> Inl e
           | Inr dt2 \<Rightarrow> fill is dt2))"

text \<open>\<^verbatim>\<open>#define SIZE 6\<close> and \<^verbatim>\<open>#define DIMS 2\<close>\<close>

definition SIZE :: int where
  "SIZE = 6"

definition DIMS :: int where
  "DIMS = 2"

text \<open>
  At rank 0 the array of \<^verbatim>\<open>SIZE * DIMS\<close> cells is allocated and filled; every other
  rank keeps the null pointer. The second loop of the source has an empty body unless
  \<^verbatim>\<open>DEBUG\<close> is defined. Every rank then passes \<^verbatim>\<open>size = SIZE\<close> and \<^verbatim>\<open>DIMS\<close>.
\<close>

definition main :: "int \<Rightarrow> main_error + builder_call" where
  "main rank =
     (case (if rank = 0 then
              (case fill [0..SIZE - 1] (replicate (nat (SIZE * DIMS)) None) of
                 Inl e \<Rightarrow> Inl e
               | Inr filled \<Rightarrow> Inr (Some filled))
            else Inr None) of
        Inl e \<Rightarrow> Inl e
      | Inr dt \<Rightarrow> Inr (Generate_kd_tree dt SIZE DIMS))"

section \<open>Depth and surplus of a worker count\<close>

lemma floor_log2_bounds:
  assumes "1 \<le> n"
  shows "0 \<le> \<lfloor>log 2 (real_of_int n)\<rfloor>
       \<and> 2 ^ nat \<lfloor>log 2 (real_of_int n)\<rfloor> \<le> n
       \<and> n < 2 ^ (nat \<lfloor>log 2 (real_of_int n)\<rfloor> + 1)"
proof -
  define k where "k = \<lfloor>log 2 (real_of_int n)\<rfloor>"
  have pos: "0 < real_of_int n" using assms by simp
  have nonneg: "0 \<le> k"
    using assms by (simp add: k_def)
  have "2 powr real_of_int k \<le> real_of_int n \<and> real_of_int n < 2 powr real_of_int (k + 1)"
    using floor_log_eq_powr_iff [of "real_of_int n" 2 k] pos by (simp add: k_def)
  moreover have "(2::real) powr real_of_int k = 2 ^ nat k"
    using nonneg by (simp add: powr_realpow [symmetric])
  moreover have "(2::real) powr real_of_int (k + 1) = 2 ^ (nat k + 1)"
    using nonneg by (simp add: powr_realpow [symmetric] powr_add)
  ultimately have "(2::real) ^ nat k \<le> real_of_int n" "real_of_int n < 2 ^ (nat k + 1)"
    by simp_all
  then have "real_of_int (2 ^ nat k) \<le> real_of_int n"
    "real_of_int n < real_of_int (2 ^ (nat k + 1))"
    by simp_all
  then have "2 ^ nat k \<le> n" "n < 2 ^ (nat k + 1)"
    by (simp_all only: of_int_le_iff of_int_less_iff)
  with nonneg show ?thesis by (simp add: k_def)
qed

lemma floor_log2_lt_31:
  assumes "1 \<le> n" and "n \<le> INT_MAX"
  shows "\<lfloor>log 2 (real_of_int n)\<rfloor> < 31"
proof -
  define k where "k = nat \<lfloor>log 2 (real_of_int n)\<rfloor>"
  have b: "0 \<le> \<lfloor>log 2 (real_of_int n)\<rfloor>" "2 ^ k \<le> n"
    using floor_log2_bounds [OF assms(1)] by (simp_all add: k_def)
  have "(2::int) ^ k < 2 ^ 31"
    using b(2) assms(2) by (simp add: INT_MAX_def)
  then have "k < 31"
    by (simp only: power_strict_increasing_iff [of "2::int"] one_less_numeral_iff semiring_norm)
  with b(1) show ?thesis unfolding k_def by linarith
qed

lemma compute_max_depth_eq:
  assumes "1 \<le> n" and "n \<le> INT_MAX"
  shows "compute_max_depth n = Some \<lfloor>log 2 (real_of_int n)\<rfloor>"
proof -
  let ?l = "log 2 (real_of_int n)"
  have nonneg: "0 \<le> ?l" using assms(1) by simp
  have "?l < real_of_int 31"
    using floor_log2_lt_31 [OF assms] by (simp only: floor_less_iff)
  then have "?l < real_of_int INT_MAX + 1" by (simp add: INT_MAX_def)
  moreover have "real_of_int INT_MIN - 1 < ?l" using nonneg by (simp add: INT_MIN_def)
  ultimately have "int_of_double ?l = Some \<lfloor>?l\<rfloor>"
    using nonneg by (simp add: int_of_double_def)
  then show ?thesis using assms(1) by (simp add: compute_max_depth_def log2_def)
qed

lemma int_of_double_pow2:
  assumes "0 \<le> d" and "2 ^ nat d \<le> INT_MAX"
  shows "int_of_double (pow 2 (real_of_int d)) = Some (2 ^ nat d)"
proof -
  have eq: "pow 2 (real_of_int d) = real_of_int (2 ^ nat d)"
    using assms(1) by (simp add: pow_def powr_realpow [symmetric])
  have "real_of_int (2 ^ nat d) \<le> real_of_int INT_MAX"
    using assms(2) by (simp only: of_int_le_iff)
  then have "real_of_int (2 ^ nat d) < real_of_int INT_MAX + 1" by linarith
  moreover have "real_of_int INT_MIN - 1 < real_of_int (2 ^ nat d)"
  proof -
    have "real_of_int INT_MIN - 1 < 0" by (simp add: INT_MIN_def)
    moreover have "(0::real) < real_of_int (2 ^ nat d)" by simp
    ultimately show ?thesis by (rule less_trans)
  qed
  moreover have "0 \<le> real_of_int (2 ^ nat d)" by simp
  ultimately show ?thesis unfolding eq int_of_double_def
    by (simp only: if_True conj_assoc floor_of_int simp_thms)
qed

text \<open>
  C4: for every worker count \<open>n \<ge> 1\<close> (an \<^verbatim>\<open>int\<close>), \<^verbatim>\<open>compute_max_depth(n)\<close> returns
  the floor of the binary logarithm of \<open>n\<close>: the number \<open>d\<close> with
  \<open>2 ^ d \<le> n < 2 ^ (d + 1)\<close>, one less than the bit length of \<open>n\<close>. For one worker the
  depth is 0.
\<close>

theorem compute_max_depth_floor_log2:
  assumes "1 \<le> n" and "n \<le> INT_MAX"
  shows "compute_max_depth n = Some \<lfloor>log 2 (real_of_int n)\<rfloor>
       \<and> compute_max_depth n = Some (int (floorlog 2 (nat n)) - 1)
       \<and> (\<exists>d. compute_max_depth n = Some (int d) \<and> 2 ^ d \<le> n \<and> n < 2 ^ (d + 1))"
proof -
  let ?k = "\<lfloor>log 2 (real_of_int n)\<rfloor>"
  have v: "compute_max_depth n = Some ?k"
    by (rule compute_max_depth_eq [OF assms])
  have b: "0 \<le> ?k" "2 ^ nat ?k \<le> n" "n < 2 ^ (nat ?k + 1)"
    using floor_log2_bounds [OF assms(1)] by simp_all
  have "real_of_int n = real (nat n)" using assms(1) by simp
  then have "int (floorlog 2 (nat n)) = ?k + 1"
    using assms(1) b(1) by (simp add: floorlog_def)
  then have "compute_max_depth n = Some (int (floorlog 2 (nat n)) - 1)"
    using v by simp
  moreover have "compute_max_depth n = Some (int (nat ?k))"
    using v b(1) by simp
  ultimately show ?thesis using v b(2,3) by blast
qed

theorem compute_max_depth_floor_log2_witness:
  "(1::int) \<le> 1 \<and> 1 \<le> INT_MAX \<and> compute_max_depth 1 = Some 0
   \<and> (1::int) \<le> 5 \<and> 5 \<le> INT_MAX \<and> compute_max_depth 5 = Some 2"
proof -
  have h: "(1::int) \<le> 1" "1 \<le> INT_MAX" "(1::int) \<le> 5" "5 \<le> INT_MAX"
    by (simp_all add: INT_MAX_def)
  have "floorlog 2 (nat 1) = 1" "floorlog 2 (nat 5) = 3"
    by (simp_all add: compute_floorlog)
  then show ?thesis
    using h compute_max_depth_floor_log2 [OF h(1,2), THEN conjunct2, THEN conjunct1]
      compute_max_depth_floor_log2 [OF h(3,4), THEN conjunct2, THEN conjunct1]
    by simp
qed

text \<open>
  C5: for every worker count \<open>n \<ge> 1\<close> with \<open>d = compute_max_depth(n)\<close>,
  \<^verbatim>\<open>compute_n_surplus_processes(n, d)\<close> returns \<open>n - 2 ^ d\<close>; so \<open>n\<close> is \<open>2 ^ d\<close> plus
  the surplus, and the surplus is at least 0 and less than \<open>2 ^ d\<close>.
\<close>

theorem surplus_is_remainder_above_power_of_two:
  assumes "1 \<le> n" and "n \<le> INT_MAX"
  shows "\<exists>d. compute_max_depth n = Some d \<and> 0 \<le> d
           \<and> compute_n_surplus_processes n d = Some (n - 2 ^ nat d)
           \<and> 0 \<le> n - 2 ^ nat d \<and> n - 2 ^ nat d < 2 ^ nat d"
proof -
  let ?d = "\<lfloor>log 2 (real_of_int n)\<rfloor>"
  have v: "compute_max_depth n = Some ?d"
    by (rule compute_max_depth_eq [OF assms])
  have b: "0 \<le> ?d" "2 ^ nat ?d \<le> n" "n < 2 ^ (nat ?d + 1)"
    using floor_log2_bounds [OF assms(1)] by simp_all
  have "2 ^ nat ?d \<le> INT_MAX" using b(2) assms(2) by simp
  then have "compute_n_surplus_processes n ?d = Some (n - 2 ^ nat ?d)"
    using int_of_double_pow2 [OF b(1)] by (simp add: compute_n_surplus_processes_def)
  moreover have "n - 2 ^ nat ?d < 2 ^ nat ?d" using b(3) by simp
  ultimately show ?thesis using v b(1,2) by auto
qed

theorem surplus_is_remainder_above_power_of_two_witness:
  "(1::int) \<le> 5 \<and> 5 \<le> INT_MAX \<and> compute_max_depth 5 = Some 2
   \<and> compute_n_surplus_processes 5 2 = Some 1"
proof -
  have h: "(1::int) \<le> 5" "5 \<le> INT_MAX"
    by (simp_all add: INT_MAX_def)
  from surplus_is_remainder_above_power_of_two [OF h]
  obtain d where d: "compute_max_depth 5 = Some d" "0 \<le> d"
    "compute_n_surplus_processes 5 d = Some (5 - 2 ^ nat d)"
    "0 \<le> (5::int) - 2 ^ nat d" "(5::int) - 2 ^ nat d < 2 ^ nat d"
    by blast
  have "(2::int) ^ nat d < 2 ^ 3" using d(4) by simp
  then have u: "nat d < 3"
    by (simp only: power_strict_increasing_iff [of "2::int"] one_less_numeral_iff semiring_norm)
  have "(2::int) ^ 1 < 2 ^ nat d" using d(5) by simp
  then have l: "1 < nat d"
    by (simp only: power_strict_increasing_iff [of "2::int"] one_less_numeral_iff semiring_norm)
  from u l d(2) have "d = 2" by simp
  with d h show ?thesis by simp
qed

section \<open>The partner of a worker\<close>



section \<open>The frame of finalize\<close>

text \<open>
  C10: \<^verbatim>\<open>finalize()\<close> assigns \<^verbatim>\<open>serial_tree_size\<close> to \<^verbatim>\<open>grown_kdtree_size\<close> and
  changes no other member: \<^verbatim>\<open>serial_tree\<close>, \<^verbatim>\<open>serial_tree_size\<close>, \<^verbatim>\<open>n_components\<close>
  and the rest of the object are as before. The value it returns is
  \<^verbatim>\<open>unpack_optional_array\<close> applied to \<^verbatim>\<open>serial_tree\<close>, \<^verbatim>\<open>serial_tree_size\<close>,
  \<^verbatim>\<open>n_components\<close> and the sentinel, so two objects that agree on these three members
  give the same value.
\<close>

theorem finalize_frame:
  "snd (finalize u e g) = g\<lparr>grown_kdtree_size := serial_tree_size g\<rparr>
   \<and> grown_kdtree_size (snd (finalize u e g)) = serial_tree_size g
   \<and> serial_tree (snd (finalize u e g)) = serial_tree g
   \<and> serial_tree_size (snd (finalize u e g)) = serial_tree_size g
   \<and> n_components (snd (finalize u e g)) = n_components g
   \<and> KDTreeGreenhouse.more (snd (finalize u e g)) = KDTreeGreenhouse.more g
   \<and> fst (finalize u e g) = u (serial_tree g) (serial_tree_size g) (n_components g) e
   \<and> (\<forall>g'. serial_tree g' = serial_tree g \<longrightarrow> serial_tree_size g' = serial_tree_size g \<longrightarrow>
          n_components g' = n_components g \<longrightarrow> fst (finalize u e g') = fst (finalize u e g))"
  by (simp add: finalize_def Let_def)

theorem finalize_frame_witness:
  "fst (finalize (\<lambda>t s n e. (e::int) # take (nat (s * n)) t) (- 1)
          \<lparr>serial_tree = [4, 6, 5, 5], serial_tree_size = 2, n_components = 2,
           grown_kdtree_size = 7\<rparr>)
   = fst (finalize (\<lambda>t s n e. (e::int) # take (nat (s * n)) t) (- 1)
          \<lparr>serial_tree = [4, 6, 5, 5], serial_tree_size = 2, n_components = 2,
           grown_kdtree_size = 0\<rparr>)
   \<and> snd (finalize (\<lambda>t s n e. (e::int) # take (nat (s * n)) t) (- 1)
          \<lparr>serial_tree = [4, 6, 5, 5], serial_tree_size = 2, n_components = 2,
           grown_kdtree_size = 0\<rparr>)
   = \<lparr>serial_tree = [4, 6, 5, 5], serial_tree_size = 2, n_components = 2,
      grown_kdtree_size = 2\<rparr>"
proof -
  let ?u = "\<lambda>t s n e. (e::int) # take (nat (s * n)) t"
  let ?g = "\<lparr>serial_tree = [4, 6, 5, 5::int], serial_tree_size = 2, n_components = 2,
             grown_kdtree_size = 0\<rparr>"
  let ?g' = "\<lparr>serial_tree = [4, 6, 5, 5::int], serial_tree_size = 2, n_components = 2,
              grown_kdtree_size = 7\<rparr>"
  note frame = finalize_frame [of ?u "- 1" ?g]
  from frame have "snd (finalize ?u (- 1) ?g) = ?g\<lparr>grown_kdtree_size := serial_tree_size ?g\<rparr>"
    by (rule conjunct1)
  then have after: "snd (finalize ?u (- 1) ?g)
      = \<lparr>serial_tree = [4, 6, 5, 5], serial_tree_size = 2, n_components = 2,
         grown_kdtree_size = 2\<rparr>"
    by simp
  from frame have "\<forall>g'. serial_tree g' = serial_tree ?g \<longrightarrow>
      serial_tree_size g' = serial_tree_size ?g \<longrightarrow> n_components g' = n_components ?g \<longrightarrow>
      fst (finalize ?u (- 1) g') = fst (finalize ?u (- 1) ?g)"
    by (elim conjE)
  then have "serial_tree ?g' = serial_tree ?g \<longrightarrow>
      serial_tree_size ?g' = serial_tree_size ?g \<longrightarrow> n_components ?g' = n_components ?g \<longrightarrow>
      fst (finalize ?u (- 1) ?g') = fst (finalize ?u (- 1) ?g)"
    by (rule spec)
  then have "fst (finalize ?u (- 1) ?g') = fst (finalize ?u (- 1) ?g)"
    by simp
  then show ?thesis using after by (rule conjI)
qed

section \<open>What the driver hands to the builder\<close>

text \<open>
  C3: every worker invokes the build entry point in the same way,
  \<^verbatim>\<open>generate_kd_tree(dt, size, DIMS)\<close> with the size 6 and 2 dimensions. A worker
  whose rank is not 0 supplies no points, its \<^verbatim>\<open>dt\<close> being the null pointer; only
  the coordinating worker, rank 0, supplies points: the 12 coordinates of the 6 points
  \<open>(9 - i, 1 + i)\<close>.
\<close>

theorem only_coordinator_supplies_data:
  assumes "rank \<noteq> 0"
  shows "main rank = Inr (Generate_kd_tree None 6 2)
       \<and> main 0 = Inr (Generate_kd_tree
                         (Some (map Some [9, 1, 8, 2, 7, 3, 6, 4, 5, 5, 4, 6])) 6 2)"
proof -
  have "main rank = Inr (Generate_kd_tree None 6 2)"
    using assms by (simp add: main_def SIZE_def DIMS_def)
  moreover have "main 0 = Inr (Generate_kd_tree
                         (Some (map Some [9, 1, 8, 2, 7, 3, 6, 4, 5, 5, 4, 6])) 6 2)"
    by code_simp
  ultimately show ?thesis by simp
qed

theorem only_coordinator_supplies_data_witness:
  "(3::int) \<noteq> 0 \<and> main 3 = Inr (Generate_kd_tree None 6 2)
   \<and> call_data (Generate_kd_tree None 6 2) = None
   \<and> call_size (Generate_kd_tree None 6 2) = 6"
  using only_coordinator_supplies_data [of 3] by simp

end
